theory Spec2Isabelle
  imports Complex_Main "HOL-Library.Sublist"
begin

section \<open>Strings\<close>

text \<open>
  Python strings are modelled as \<^typ>\<open>string\<close>. The stemmer and the tokenizer of the
  repository classify ASCII letters only, so \<open>str.lower()\<close> is modelled on the ASCII
  letters \<open>A\<close> .. \<open>Z\<close> (codes 65 .. 90) and leaves every other character as it is, and
  the whitespace of \<open>str.strip()\<close> and \<open>str.split()\<close> is the ASCII whitespace of
  Python (codes 9 .. 13, 28 .. 32).
\<close>

definition is_upper :: "char \<Rightarrow> bool" where
  "is_upper c = (65 \<le> (of_char c :: nat) \<and> (of_char c :: nat) \<le> 90)"

definition lower_char :: "char \<Rightarrow> char" where
  "lower_char c = (if is_upper c then char_of ((of_char c :: nat) + 32) else c)"

definition lower :: "string \<Rightarrow> string" where
  "lower s = map lower_char s"

definition is_space :: "char \<Rightarrow> bool" where
  "is_space c = (let n = (of_char c :: nat) in (9 \<le> n \<and> n \<le> 13) \<or> (28 \<le> n \<and> n \<le> 32))"

definition strip :: "string \<Rightarrow> string" where
  "strip s = rev (dropWhile is_space (rev (dropWhile is_space s)))"

text \<open>\<open>split_aux cur s\<close>: the token being read is \<open>cur\<close>; a run of whitespace ends it.\<close>

fun split_aux :: "string \<Rightarrow> string \<Rightarrow> string list" where
  "split_aux cur [] = (if cur = [] then [] else [cur])"
| "split_aux cur (c # cs) =
     (if is_space c then (if cur = [] then split_aux [] cs else cur # split_aux [] cs)
      else split_aux (cur @ [c]) cs)"

definition split :: "string \<Rightarrow> string list" where
  "split s = split_aux [] s"

text \<open>\<open>word.endswith(suffix)\<close> and the slice \<open>word[:-k]\<close> (for \<open>k \<ge> 1\<close>).\<close>

definition endswith :: "string \<Rightarrow> string \<Rightarrow> bool" where
  "endswith w s = (length s \<le> length w \<and> drop (length w - length s) w = s)"

definition chop :: "nat \<Rightarrow> string \<Rightarrow> string" where
  "chop k w = take (length w - k) w"

section \<open>The Porter stemmer (ir_core/stemming.py)\<close>

text \<open>
  \<open>is_consonant(word, i)\<close>. Every call site passes an index \<open>i \<ge> 0\<close>, so the index is a
  natural number; an index past the end gives \<open>False\<close>, as in the source.
\<close>

fun is_consonant :: "string \<Rightarrow> nat \<Rightarrow> bool" where
  "is_consonant word 0 =
     (if 0 \<ge> length word then False
      else let c = lower_char (word ! 0) in
        if c \<in> set ''aeiou'' then False else True)"
| "is_consonant word (Suc i) =
     (if Suc i \<ge> length word then False
      else let c = lower_char (word ! Suc i) in
        if c \<in> set ''aeiou'' then False
        else if c = CHR ''y'' then \<not> is_consonant word i
        else True)"

text \<open>The three inner \<open>while\<close> loops of \<open>measure\<close>: advance \<open>i\<close> over consonants, or over vowels.\<close>

function skip_consonants :: "string \<Rightarrow> nat \<Rightarrow> nat" where
  "skip_consonants word i =
     (if i < length word \<and> is_consonant word i then skip_consonants word (Suc i) else i)"
  by pat_completeness auto
termination
  by (relation "measure (\<lambda>(word, i). length word - i)") auto

declare skip_consonants.simps [simp del]

function skip_vowels :: "string \<Rightarrow> nat \<Rightarrow> nat" where
  "skip_vowels word i =
     (if i < length word \<and> \<not> is_consonant word i then skip_vowels word (Suc i) else i)"
  by pat_completeness auto
termination
  by (relation "measure (\<lambda>(word, i). length word - i)") auto

declare skip_vowels.simps [simp del]

text \<open>
  The outer loop of \<open>measure\<close>, counting the vowel-run/consonant-run pairs:
  \<^verbatim>\<open>
    while i < n:
        while i < n and not is_consonant(word, i): i += 1
        if i >= n: break
        while i < n and is_consonant(word, i): i += 1
        m += 1
  \<close>
\<close>

function measure_loop :: "string \<Rightarrow> nat \<Rightarrow> nat \<Rightarrow> nat" where
  "measure_loop word i m =
     (if i < length word then
        (let j = skip_vowels word i in
         if j \<ge> length word then m
         else measure_loop word (skip_consonants word j) (m + 1))
      else m)"
  by pat_completeness auto
termination
proof (relation "measure (\<lambda>(word, i, m). length word - i)", goal_cases)
  case 1
  show ?case by (rule wf_measure)
next
  case (2 word i m j)
  have vowels_ge: "k \<le> skip_vowels w k" for w k
  proof (induction w k rule: skip_vowels.induct)
    case (1 w k)
    show ?case
    proof (cases "k < length w \<and> \<not> is_consonant w k")
      case True
      with 1 have "Suc k \<le> skip_vowels w (Suc k)" by blast
      moreover from True have "skip_vowels w k = skip_vowels w (Suc k)"
        by (subst skip_vowels.simps) simp
      ultimately show ?thesis by simp
    next
      case False
      then have "skip_vowels w k = k" by (subst skip_vowels.simps) auto
      then show ?thesis by simp
    qed
  qed
  have consonants_ge: "k \<le> skip_consonants w k" for w k
  proof (induction w k rule: skip_consonants.induct)
    case (1 w k)
    show ?case
    proof (cases "k < length w \<and> is_consonant w k")
      case True
      with 1 have "Suc k \<le> skip_consonants w (Suc k)" by blast
      moreover from True have "skip_consonants w k = skip_consonants w (Suc k)"
        by (subst skip_consonants.simps) simp
      ultimately show ?thesis by simp
    next
      case False
      then have "skip_consonants w k = k" by (subst skip_consonants.simps) auto
      then show ?thesis by simp
    qed
  qed
  have vowels_stop: "skip_vowels w k < length w \<Longrightarrow> is_consonant w (skip_vowels w k)" for w k
  proof (induction w k rule: skip_vowels.induct)
    case (1 w k)
    show ?case
    proof (cases "k < length w \<and> \<not> is_consonant w k")
      case True
      then have eq: "skip_vowels w k = skip_vowels w (Suc k)"
        by (subst skip_vowels.simps) simp
      from 1(2) have "skip_vowels w (Suc k) < length w" unfolding eq .
      with 1(1) True have "is_consonant w (skip_vowels w (Suc k))" by blast
      then show ?thesis unfolding eq .
    next
      case False
      then have eq: "skip_vowels w k = k" by (subst skip_vowels.simps) auto
      from 1(2) have "k < length w" unfolding eq .
      with False have "is_consonant w k" by blast
      then show ?thesis unfolding eq .
    qed
  qed
  from 2 have j: "j < length word" "j = skip_vowels word i" by simp_all
  from j(1) have "is_consonant word j" unfolding j(2) by (rule vowels_stop)
  with j(1) have "skip_consonants word j = skip_consonants word (Suc j)"
    by (subst skip_consonants.simps) simp
  with consonants_ge [of "Suc j" word] have "j < skip_consonants word j" by simp
  moreover have "i \<le> j" unfolding j(2) by (rule vowels_ge)
  moreover have "i < length word" using 2 by simp
  ultimately have "length word - skip_consonants word j < length word - i" by arith
  then show ?case by simp
qed

declare measure_loop.simps [simp del]

definition measure_word :: "string \<Rightarrow> nat" where
  "measure_word word =
     (if length word = 0 then 0 else measure_loop word (skip_consonants word 0) 0)"

definition contains_vowel :: "string \<Rightarrow> bool" where
  "contains_vowel word = (\<exists>i \<in> set [0 ..< length word]. \<not> is_consonant word i)"

definition ends_double_consonant :: "string \<Rightarrow> bool" where
  "ends_double_consonant word =
     (if length word < 2 then False
      else last word = word ! (length word - 2) \<and> is_consonant word (length word - 1))"

definition cvc_ending :: "string \<Rightarrow> bool" where
  "cvc_ending word =
     (if length word < 3 then False
      else let n = length word in
        is_consonant word (n - 3) \<and> \<not> is_consonant word (n - 2) \<and> is_consonant word (n - 1)
        \<and> last word \<notin> set ''wxy'')"

text \<open>Step 1a.\<close>

definition step1a :: "string \<Rightarrow> string" where
  "step1a word =
     (if endswith word ''sses'' then chop 2 word
      else if endswith word ''ies'' then chop 2 word
      else if endswith word ''ss'' then word
      else if endswith word ''s'' \<and> length word > 1 then chop 1 word
      else word)"

text \<open>The fix-up after \<open>ed\<close> or \<open>ing\<close> has been removed (the same code in both branches).\<close>

definition step1b_post :: "string \<Rightarrow> string" where
  "step1b_post word =
     (if endswith word ''at'' then word @ ''e''
      else if endswith word ''bl'' then word @ ''e''
      else if endswith word ''iz'' then word @ ''e''
      else if ends_double_consonant word \<and> last word \<notin> set ''lsz'' then chop 1 word
      else if measure_word word = 1 \<and> cvc_ending word then word @ ''e''
      else word)"

definition step1b :: "string \<Rightarrow> string" where
  "step1b word =
     (if endswith word ''eed'' then
        (if measure_word (chop 3 word) > 0 then chop 1 word else word)
      else if endswith word ''ed'' then
        (if contains_vowel (chop 2 word) then step1b_post (chop 2 word) else word)
      else if endswith word ''ing'' then
        (if contains_vowel (chop 3 word) then step1b_post (chop 3 word) else word)
      else word)"

definition step1c :: "string \<Rightarrow> string" where
  "step1c word =
     (if endswith word ''y'' \<and> contains_vowel (chop 1 word) then chop 1 word @ ''i'' else word)"

definition step2_rules :: "(string \<times> string) list" where
  "step2_rules =
     [(''ational'', ''ate''), (''tional'', ''tion''), (''enci'', ''ence''), (''anci'', ''ance''),
      (''izer'', ''ize''), (''abli'', ''able''), (''alli'', ''al''), (''entli'', ''ent''),
      (''eli'', ''e''), (''ousli'', ''ous''), (''ization'', ''ize''), (''ation'', ''ate''),
      (''ator'', ''ate''), (''alism'', ''al''), (''iveness'', ''ive''), (''fulness'', ''ful''),
      (''ousness'', ''ous''), (''aliti'', ''al''), (''iviti'', ''ive''), (''biliti'', ''ble'')]"

definition step3_rules :: "(string \<times> string) list" where
  "step3_rules =
     [(''icate'', ''ic''), (''ative'', ''''), (''alize'', ''al''), (''iciti'', ''ic''),
      (''ical'', ''ic''), (''ful'', ''''), (''ness'', '''')]"

definition step4_rules :: "string list" where
  "step4_rules =
     [''al'', ''ance'', ''ence'', ''er'', ''ic'', ''able'', ''ible'', ''ant'', ''ement'',
      ''ment'', ''ent'', ''ion'', ''ou'', ''ism'', ''ate'', ''iti'', ''ous'', ''ive'', ''ize'']"

text \<open>
  The loop of steps 2 and 3: the first rule whose suffix matches is the only one tried
  (\<open>break\<close>), and it rewrites the word only when the measure of the stem is positive.
\<close>

fun replace_rules :: "(string \<times> string) list \<Rightarrow> string \<Rightarrow> string" where
  "replace_rules [] word = word"
| "replace_rules ((suf, repl) # rules) word =
     (if endswith word suf then
        (let stem = chop (length suf) word in
         if measure_word stem > 0 then stem @ repl else word)
      else replace_rules rules word)"

text \<open>The loop of step 4, with its special case for \<open>ion\<close>.\<close>

fun remove_rules :: "string list \<Rightarrow> string \<Rightarrow> string" where
  "remove_rules [] word = word"
| "remove_rules (suf # rules) word =
     (if endswith word suf then
        (let stem = chop (length suf) word in
         if measure_word stem > 1 then
           (if suf = ''ion'' \<and> length stem > 0 \<and> last stem \<in> set ''st'' then stem
            else if suf \<noteq> ''ion'' then stem
            else word)
         else word)
      else remove_rules rules word)"

definition step5a :: "string \<Rightarrow> string" where
  "step5a word =
     (if endswith word ''e'' then
        (let stem = chop 1 word; stem_measure = measure_word stem in
         if stem_measure > 1 \<or> (stem_measure = 1 \<and> \<not> cvc_ending stem) then stem else word)
      else word)"

definition step5b :: "string \<Rightarrow> string" where
  "step5b word =
     (if measure_word word > 1 \<and> ends_double_consonant word \<and> endswith word ''l''
      then chop 1 word else word)"

definition stem_term :: "string \<Rightarrow> string" where
  "stem_term word =
     (if length word \<le> 2 then lower word
      else step5b (step5a (remove_rules step4_rules (replace_rules step3_rules
             (replace_rules step2_rules (step1c (step1b (step1a (lower word)))))))))"

section \<open>Documents\<close>

text \<open>
  Modelled from the spec: the \<open>Document\<close> class (\<open>document.py\<close>) is not among the source
  files; only its uses are. The record has the fields of the spec's data model. The
  source reads a derived field either as an attribute or, when it is callable, by calling
  it; both give the stored list, which is what the record field holds. The assignments
  \<open>doc._filtered_terms = ...\<close> and \<open>doc.filtered_terms = ...\<close> of the two stopword modules
  both set the field \<open>filtered_terms\<close>.
\<close>

record document =
  document_id :: int
  title :: string
  raw_text :: string
  terms :: "string list"
  author :: string
  origin :: string
  filtered_terms :: "string list"
  stemmed_terms :: "string list"
  filtered_stemmed_terms :: "string list"

section \<open>Dictionaries of counts\<close>

text \<open>
  A Python \<open>dict\<close> (also \<open>Counter\<close> and \<open>defaultdict(int)\<close>) from terms to counts, in
  insertion order: \<open>incr t d\<close> is \<open>d[t] = d.get(t, 0) + 1\<close>.
\<close>

fun incr :: "string \<Rightarrow> (string \<times> nat) list \<Rightarrow> (string \<times> nat) list" where
  "incr t [] = [(t, 1)]"
| "incr t ((k, c) # kvs) = (if k = t then (k, c + 1) # kvs else (k, c) # incr t kvs)"

text \<open>\<open>get_count d t\<close> is \<open>d.get(t, 0)\<close>.\<close>

definition get_count :: "(string \<times> nat) list \<Rightarrow> string \<Rightarrow> nat" where
  "get_count d t = (case map_of d t of None \<Rightarrow> 0 | Some c \<Rightarrow> c)"

section \<open>Stopword removal (ir_core/stopwords.py)\<close>

text \<open>\<open>remove_stopwords_by_list\<close>; the two versions of the module have the same loop.\<close>

definition remove_stopwords_by_list :: "document \<Rightarrow> string set \<Rightarrow> document" where
  "remove_stopwords_by_list doc stopwords =
     doc\<lparr>filtered_terms := map lower (filter (\<lambda>t. lower t \<notin> stopwords) (terms doc))\<rparr>"

text \<open>
  \<open>remove_stopwords_by_frequency\<close> of \<open>Ass2/group_008_p2\<close>: document frequencies. The source
  iterates over \<open>set(document.terms)\<close>, in an order Python does not fix; the model takes the
  order of first occurrence.
\<close>

definition term_doc_counts :: "document list \<Rightarrow> (string \<times> nat) list" where
  "term_doc_counts coll =
     foldl (\<lambda>counts d. foldl (\<lambda>cs t. incr t cs) counts (remdups (terms d))) [] coll"

definition freq_stopwords :: "(string \<times> nat) list \<Rightarrow> nat \<Rightarrow> real \<Rightarrow> real \<Rightarrow> string set" where
  "freq_stopwords counts n rare_frequency common_frequency =
     set (map fst (filter (\<lambda>(t, c).
        real c / real n \<ge> common_frequency \<or> real c / real n \<le> rare_frequency) counts))"

definition remove_stopwords_by_frequency ::
  "document \<Rightarrow> document list \<Rightarrow> real \<Rightarrow> real \<Rightarrow> document" where
  "remove_stopwords_by_frequency doc coll rare_frequency common_frequency =
     (let counts = term_doc_counts coll; total_docs = length coll in
      if total_docs = 0 then doc\<lparr>filtered_terms := []\<rparr>
      else
        let stopwords = freq_stopwords counts total_docs rare_frequency common_frequency in
        doc\<lparr>filtered_terms := map lower (filter (\<lambda>t. t \<notin> stopwords) (terms doc))\<rparr>)"

text \<open>
  \<open>remove_stopwords_by_frequency\<close> of \<open>Ass2/group_008_p2_old_test_cases_2\<close>: frequencies of
  occurrences. Its parameters are in the order \<open>common_frequency\<close>, \<open>rare_frequency\<close>.
\<close>

definition term_frequencies :: "document list \<Rightarrow> (string \<times> nat) list" where
  "term_frequencies coll =
     foldl (\<lambda>counts d. foldl (\<lambda>cs t. incr t cs) counts (terms d)) [] coll"

definition remove_stopwords_by_frequency_old ::
  "document \<Rightarrow> document list \<Rightarrow> real \<Rightarrow> real \<Rightarrow> document" where
  "remove_stopwords_by_frequency_old doc coll common_frequency rare_frequency =
     (let counts = term_frequencies coll; total_terms = sum_list (map snd counts) in
      if total_terms = 0 then doc\<lparr>filtered_terms := []\<rparr>
      else
        let stopwords = freq_stopwords counts total_terms rare_frequency common_frequency in
        doc\<lparr>filtered_terms := map lower (filter (\<lambda>t. t \<notin> stopwords) (terms doc))\<rparr>)"

section \<open>Retrieval (ir_core/retrieval.py)\<close>

text \<open>
  The choice of the term list of a document, the same code in both search functions
  (\<open>sf\<close> is \<open>stopword_filtered\<close>, \<open>st\<close> is \<open>stemmed\<close>).
\<close>

definition select_terms :: "bool \<Rightarrow> bool \<Rightarrow> document \<Rightarrow> string list" where
  "select_terms sf st doc =
     (if st \<and> sf then
        (let ts = filtered_stemmed_terms doc in
         if ts = [] then
           (let ft = filtered_terms doc in if ft \<noteq> [] then map stem_term ft else [])
         else ts)
      else if st then
        (let ts = stemmed_terms doc in
         if ts = [] then map stem_term (terms doc) else ts)
      else if sf then filtered_terms doc
      else terms doc)"

definition lowercase_terms :: "bool \<Rightarrow> bool \<Rightarrow> document \<Rightarrow> string list" where
  "lowercase_terms sf st doc = map lower (select_terms sf st doc)"

definition parse_query :: "string \<Rightarrow> string list" where
  "parse_query query = split (strip (lower query))"

definition linear_boolean_search ::
  "string \<Rightarrow> document list \<Rightarrow> bool \<Rightarrow> bool \<Rightarrow> (int \<times> document) list" where
  "linear_boolean_search query coll sf st =
     (let query_terms = parse_query query in
      if query_terms = [] then map (\<lambda>doc. (0, doc)) coll
      else
        let query_terms = (if st then map stem_term query_terms else query_terms);
            results = map (\<lambda>doc.
              let lowercase_terms_set = set (lowercase_terms sf st doc);
                  all_terms_found = list_all (\<lambda>t. t \<in> lowercase_terms_set) query_terms
              in if all_terms_found then (1, doc) else (0, doc)) coll
        in if st then filter (\<lambda>(score, doc). score = 1) results else results)"

text \<open>
  The vector space model. \<open>count_terms\<close> is the loop \<open>term_counts[term] += 1\<close>; the
  inverted index is a \<open>defaultdict(list)\<close> from a term to its postings \<open>(doc_id, tf)\<close>, and
  \<open>add_posting\<close> is \<open>inverted_index[term].append((doc.document_id, count))\<close>. The
  dictionaries \<open>doc_term_counts\<close>, \<open>doc_lengths\<close> and \<open>doc_dict\<close> are written and never read.
  Python floats are modelled as real numbers.
\<close>

definition count_terms :: "string list \<Rightarrow> (string \<times> nat) list" where
  "count_terms ts = foldl (\<lambda>term_counts t. incr t term_counts) [] ts"

type_synonym inverted_index = "string \<rightharpoonup> (int \<times> nat) list"

definition add_posting :: "int \<Rightarrow> inverted_index \<Rightarrow> string \<times> nat \<Rightarrow> inverted_index" where
  "add_posting doc_id idx tc =
     (case tc of (t, count) \<Rightarrow>
        idx(t \<mapsto> (case idx t of None \<Rightarrow> [] | Some ps \<Rightarrow> ps) @ [(doc_id, count)]))"

definition index_document :: "bool \<Rightarrow> bool \<Rightarrow> inverted_index \<Rightarrow> document \<Rightarrow> inverted_index" where
  "index_document sf st idx doc =
     foldl (add_posting (document_id doc)) idx (count_terms (lowercase_terms sf st doc))"

definition build_index :: "bool \<Rightarrow> bool \<Rightarrow> document list \<Rightarrow> inverted_index" where
  "build_index sf st coll = foldl (index_document sf st) Map.empty coll"

definition doc_frequencies :: "inverted_index \<Rightarrow> (string \<rightharpoonup> nat)" where
  "doc_frequencies idx = (\<lambda>t. map_option length (idx t))"

definition get_score :: "(int \<rightharpoonup> real) \<Rightarrow> int \<Rightarrow> real" where
  "get_score doc_scores doc_id = (case doc_scores doc_id of None \<Rightarrow> 0 | Some s \<Rightarrow> s)"

definition add_score :: "real \<Rightarrow> (int \<rightharpoonup> real) \<Rightarrow> int \<times> nat \<Rightarrow> (int \<rightharpoonup> real)" where
  "add_score idf doc_scores p =
     (case p of (doc_id, tf) \<Rightarrow>
        let tf_weight = (if tf > 0 then 1 + ln (real tf) else 0);
            tf_idf = tf_weight * idf
        in doc_scores(doc_id \<mapsto> get_score doc_scores doc_id + tf_idf))"

definition score_term ::
  "inverted_index \<Rightarrow> nat \<Rightarrow> (int \<rightharpoonup> real) \<Rightarrow> string \<Rightarrow> (int \<rightharpoonup> real)" where
  "score_term idx total_docs doc_scores query_term =
     (case idx query_term of
        None \<Rightarrow> doc_scores
      | Some ps \<Rightarrow>
          (case doc_frequencies idx query_term of
             None \<Rightarrow> doc_scores
           | Some df \<Rightarrow>
               let idf = (if df > 0 then ln (real total_docs / real df) else 0)
               in foldl (add_score idf) doc_scores ps))"

definition vector_space_search ::
  "string \<Rightarrow> document list \<Rightarrow> bool \<Rightarrow> bool \<Rightarrow> (real \<times> document) list" where
  "vector_space_search query coll sf st =
     (if coll = [] then []
      else
        let query_terms = parse_query query in
        if query_terms = [] then map (\<lambda>doc. (0, doc)) coll
        else
          let query_terms = (if st then map stem_term query_terms else query_terms);
              idx = build_index sf st coll;
              doc_scores = foldl (score_term idx (length coll)) Map.empty query_terms
          in map (\<lambda>doc. (get_score doc_scores (document_id doc), doc)) coll)"

definition precision_recall :: "int set \<Rightarrow> int set \<Rightarrow> real \<times> real" where
  "precision_recall retrieved_ids relevant_ids =
     (if retrieved_ids = {} \<and> relevant_ids = {} then (0, 0)
      else if retrieved_ids = {} then (0, 0)
      else if relevant_ids = {} then (0, 0)
      else
        let intersection = retrieved_ids \<inter> relevant_ids in
        (real (card intersection) / real (card retrieved_ids),
         real (card intersection) / real (card relevant_ids)))"

section \<open>The specification's notions\<close>

text \<open>
  The definitions of this section follow the words of the specification, not the code;
  the theorems below compare the code with them.
\<close>

text \<open>A string is lowercase when it has no upper-case letter.\<close>

definition is_lowercase :: "string \<Rightarrow> bool" where
  "is_lowercase s = list_all (\<lambda>c. \<not> is_upper c) s"

text \<open>A query is whitespace-only when each of its characters is whitespace (the empty query too).\<close>

definition whitespace_only :: "string \<Rightarrow> bool" where
  "whitespace_only query = list_all is_space query"

text \<open>The query terms: whitespace-split, lowercased and, for the stemmed views, stemmed.\<close>

definition spec_query_terms :: "bool \<Rightarrow> string \<Rightarrow> string list" where
  "spec_query_terms st query =
     (if st then map stem_term (parse_query query) else parse_query query)"

text \<open>Boolean AND: every query term is present in the selected term view of the document.\<close>

definition spec_matches :: "string \<Rightarrow> bool \<Rightarrow> bool \<Rightarrow> document \<Rightarrow> bool" where
  "spec_matches query sf st doc =
     list_all (\<lambda>t. t \<in> set (lowercase_terms sf st doc)) (spec_query_terms st query)"

text \<open>
  The document frequency of a term in the index: the number of documents of the collection
  whose selected view has the term; and the tf-idf score of a document for a list of query
  terms: the sum, over the query terms present in the document's view, of
  \<open>(1 + ln tf) * ln (totalDocuments / documentFrequency)\<close>.
\<close>

definition spec_df :: "bool \<Rightarrow> bool \<Rightarrow> document list \<Rightarrow> string \<Rightarrow> nat" where
  "spec_df sf st coll t = length (filter (\<lambda>d. t \<in> set (lowercase_terms sf st d)) coll)"

definition spec_idf :: "bool \<Rightarrow> bool \<Rightarrow> document list \<Rightarrow> string \<Rightarrow> real" where
  "spec_idf sf st coll t = ln (real (length coll) / real (spec_df sf st coll t))"

definition spec_tf :: "bool \<Rightarrow> bool \<Rightarrow> document \<Rightarrow> string \<Rightarrow> nat" where
  "spec_tf sf st doc t = count_list (lowercase_terms sf st doc) t"

definition spec_score :: "bool \<Rightarrow> bool \<Rightarrow> document list \<Rightarrow> string list \<Rightarrow> document \<Rightarrow> real" where
  "spec_score sf st coll query_terms doc =
     sum_list (map (\<lambda>t.
        if t \<in> set (lowercase_terms sf st doc)
        then (1 + ln (real (spec_tf sf st doc t))) * spec_idf sf st coll t
        else 0) query_terms)"

text \<open>
  The two relative frequencies of a term in a reference collection: the fraction of the
  documents that contain it, and its share of all term occurrences. A frequency is computed
  for the terms that occur in the reference collection.
\<close>

definition occurs_in :: "document list \<Rightarrow> string \<Rightarrow> bool" where
  "occurs_in coll t = list_ex (\<lambda>d. t \<in> set (terms d)) coll"

definition spec_document_frequency :: "document list \<Rightarrow> string \<Rightarrow> real" where
  "spec_document_frequency coll t =
     real (length (filter (\<lambda>d. t \<in> set (terms d)) coll)) / real (length coll)"

definition total_occurrences :: "document list \<Rightarrow> nat" where
  "total_occurrences coll = sum_list (map (\<lambda>d. length (terms d)) coll)"

definition spec_term_frequency :: "document list \<Rightarrow> string \<Rightarrow> real" where
  "spec_term_frequency coll t =
     real (sum_list (map (\<lambda>d. count_list (terms d) t) coll)) / real (total_occurrences coll)"

definition spec_is_stopword :: "real \<Rightarrow> real \<Rightarrow> real \<Rightarrow> bool" where
  "spec_is_stopword rare common freq = (freq \<ge> common \<or> freq \<le> rare)"

section \<open>The example collection of the specification\<close>

definition mk_doc :: "int \<Rightarrow> string list \<Rightarrow> document" where
  "mk_doc i ts =
     \<lparr>document_id = i, title = '''', raw_text = '''', terms = ts, author = '''', origin = '''',
      filtered_terms = [], stemmed_terms = [], filtered_stemmed_terms = []\<rparr>"

definition example_collection :: "document list" where
  "example_collection =
     [mk_doc 0 [''the'', ''cat'', ''sat''],
      mk_doc 1 [''the'', ''dog'', ''ran''],
      mk_doc 2 [''cat'', ''dog'', ''played'']]"

section \<open>Properties of the string operations\<close>

lemma not_upper_lower_char: "\<not> is_upper (lower_char c)"
  by (auto simp: is_upper_def lower_char_def)

lemma lower_char_idem: "lower_char (lower_char c) = lower_char c"
  using not_upper_lower_char [of c] by (simp add: lower_char_def [of "lower_char c"])

lemma lower_idem: "lower (lower s) = lower s"
  by (simp add: lower_def lower_char_idem)

lemma is_lowercase_lower: "is_lowercase (lower s)"
  by (simp add: is_lowercase_def lower_def list_all_iff not_upper_lower_char)

section \<open>The stemmer on short tokens and on the known vectors\<close>

text \<open>
  Claim C9. For every token \<open>x\<close> of length at most 2, \<open>stem_term(x)\<close> is \<open>x.lower()\<close>: the
  token is lowercased and no rule group is applied.
\<close>

theorem stem_term_short: "length x \<le> 2 \<Longrightarrow> stem_term x = lower x"
  by (simp add: stem_term_def)

theorem stem_term_short_witness: "length ''Ab'' \<le> 2 \<and> stem_term ''Ab'' = lower ''Ab''"
  using stem_term_short [of "''Ab''"] by simp

text \<open>
  Claim C3, as stated, asks for \<open>stem_term("agreed") == "agree"\<close>. Step 1b does rewrite
  \<open>agreed\<close> to \<open>agree\<close>, but step 5a then removes the final \<open>e\<close>: the stem \<open>agre\<close> has
  measure 1 and does not end consonant-vowel-consonant. The result is \<open>agre\<close>.
\<close>

theorem stem_term_agreed_counterexample:
  "stem_term ''agreed'' = ''agre'' \<and> stem_term ''agreed'' \<noteq> ''agree''"
  by code_simp

text \<open>
  Claim C3, amended. The stemmer maps \<open>caresses\<close> to \<open>caress\<close>, \<open>ponies\<close> to \<open>poni\<close>,
  \<open>agreed\<close> to \<open>agre\<close>, \<open>feed\<close> to \<open>feed\<close>, \<open>plastered\<close> to \<open>plaster\<close> and \<open>motoring\<close> to
  \<open>motor\<close>; in \<open>feed\<close> the stem \<open>f\<close> before \<open>eed\<close> has measure 0, which blocks the rule.
\<close>

theorem stem_term_known_vectors:
  "stem_term ''caresses'' = ''caress'' \<and> stem_term ''ponies'' = ''poni''
   \<and> stem_term ''agreed'' = ''agre'' \<and> stem_term ''feed'' = ''feed''
   \<and> stem_term ''plastered'' = ''plaster'' \<and> stem_term ''motoring'' = ''motor''
   \<and> measure_word ''f'' = 0 \<and> step1b ''feed'' = ''feed''"
  by code_simp

section \<open>Precision and recall\<close>

text \<open>
  Claim C5. \<open>precision_recall(retrieved, relevant)\<close> is
  \<open>(|retrieved \<inter> relevant| / |retrieved|, |retrieved \<inter> relevant| / |relevant|)\<close> when both
  sets are non-empty and \<open>(0.0, 0.0)\<close> when either is empty; on \<open>{1,2}\<close> and \<open>{2,3}\<close> it is
  \<open>(0.5, 0.5)\<close>, on \<open>\<emptyset>\<close> and \<open>{1,2}\<close>, and on \<open>{1,2}\<close> and \<open>\<emptyset>\<close>, it is \<open>(0.0, 0.0)\<close>.
\<close>

theorem precision_recall_spec:
  "(retrieved \<noteq> {} \<and> relevant \<noteq> {} \<longrightarrow>
      precision_recall retrieved relevant =
        (real (card (retrieved \<inter> relevant)) / real (card retrieved),
         real (card (retrieved \<inter> relevant)) / real (card relevant)))
   \<and> (retrieved = {} \<or> relevant = {} \<longrightarrow> precision_recall retrieved relevant = (0, 0))
   \<and> precision_recall {1, 2} {2, 3} = (0.5, 0.5)
   \<and> precision_recall {} {1, 2} = (0, 0)
   \<and> precision_recall {1, 2} {} = (0, 0)"
  by (simp add: precision_recall_def Let_def)

theorem precision_recall_spec_witness:
  "({1, 2, 3} \<noteq> ({} :: int set) \<and> {2, 3, 4, 5} \<noteq> ({} :: int set))
   \<and> precision_recall {1, 2, 3} {2, 3, 4, 5} = (2 / 3, 1 / 2)
   \<and> precision_recall {} {7} = (0, 0)"
proof -
  have i: "{1, 2, 3} \<inter> {2, 3, 4, 5} = {2, 3 :: int}" by auto
  from precision_recall_spec [of "{1, 2, 3}" "{2, 3, 4, 5}"] precision_recall_spec [of "{}" "{7}"]
  show ?thesis unfolding i by simp
qed

section \<open>Stopword removal by list\<close>

text \<open>
  Claim C7. After \<open>remove_stopwords_by_list\<close>, \<open>filtered_terms\<close> is no longer than \<open>terms\<close>,
  each of its elements is lowercase, it is a subsequence of the lowercased terms, namely
  the lowercased terms that are not in the stopword set, and \<open>terms\<close> and \<open>raw_text\<close> are
  unchanged.
\<close>

theorem remove_stopwords_by_list_spec:
  "length (filtered_terms (remove_stopwords_by_list doc stopwords)) \<le> length (terms doc)
   \<and> (\<forall>t \<in> set (filtered_terms (remove_stopwords_by_list doc stopwords)).
         lower t = t \<and> is_lowercase t)
   \<and> subseq (filtered_terms (remove_stopwords_by_list doc stopwords)) (map lower (terms doc))
   \<and> filtered_terms (remove_stopwords_by_list doc stopwords) =
       filter (\<lambda>t. t \<notin> stopwords) (map lower (terms doc))
   \<and> terms (remove_stopwords_by_list doc stopwords) = terms doc
   \<and> raw_text (remove_stopwords_by_list doc stopwords) = raw_text doc"
proof -
  let ?ft = "filtered_terms (remove_stopwords_by_list doc stopwords)"
  have eq: "?ft = filter (\<lambda>t. t \<notin> stopwords) (map lower (terms doc))"
    by (simp add: remove_stopwords_by_list_def filter_map comp_def)
  have "length (filter (\<lambda>t. t \<notin> stopwords) (map lower (terms doc)))
          \<le> length (map lower (terms doc))"
    by (rule length_filter_le)
  then have len: "length ?ft \<le> length (terms doc)"
    by (simp only: eq length_map)
  have low: "\<forall>t \<in> set ?ft. lower t = t \<and> is_lowercase t"
  proof
    fix t assume "t \<in> set ?ft"
    then have "t \<in> set (map lower (terms doc))" unfolding eq by simp
    then obtain u where "t = lower u" by auto
    then show "lower t = t \<and> is_lowercase t"
      by (simp only: lower_idem is_lowercase_lower simp_thms)
  qed
  have sub: "subseq ?ft (map lower (terms doc))"
    unfolding eq by (rule subseq_filter_left)
  have t: "terms (remove_stopwords_by_list doc stopwords) = terms doc"
    by (simp add: remove_stopwords_by_list_def)
  have r: "raw_text (remove_stopwords_by_list doc stopwords) = raw_text doc"
    by (simp add: remove_stopwords_by_list_def)
  show ?thesis by (intro conjI len low sub eq t r)
qed

theorem remove_stopwords_by_list_spec_witness:
  "filtered_terms (remove_stopwords_by_list (mk_doc 0 [''The'', ''cat'', ''sat'']) {''the''}) =
     [''cat'', ''sat'']
   \<and> terms (remove_stopwords_by_list (mk_doc 0 [''The'', ''cat'', ''sat'']) {''the''}) =
     [''The'', ''cat'', ''sat'']"
proof -
  have l: "filter (\<lambda>t. t \<notin> {''the''})
             (map lower (terms (mk_doc 0 [''The'', ''cat'', ''sat'']))) = [''cat'', ''sat'']"
    by code_simp
  have d: "terms (mk_doc 0 [''The'', ''cat'', ''sat'']) = [''The'', ''cat'', ''sat'']"
    by (simp add: mk_doc_def)
  note th = remove_stopwords_by_list_spec [of "mk_doc 0 [''The'', ''cat'', ''sat'']" "{''the''}"]
  from th have a:
    "filtered_terms (remove_stopwords_by_list (mk_doc 0 [''The'', ''cat'', ''sat'']) {''the''}) =
     filter (\<lambda>t. t \<notin> {''the''}) (map lower (terms (mk_doc 0 [''The'', ''cat'', ''sat''])))"
    by (elim conjE)
  from th have c:
    "terms (remove_stopwords_by_list (mk_doc 0 [''The'', ''cat'', ''sat'']) {''the''}) =
     terms (mk_doc 0 [''The'', ''cat'', ''sat''])"
    by (elim conjE)
  show ?thesis by (intro conjI) (simp only: a l, simp only: c d)
qed

section \<open>Query parsing and Boolean search\<close>

lemma is_space_lower_char: "is_space (lower_char c) = is_space c"
  by (auto simp: is_space_def lower_char_def is_upper_def Let_def)

lemma split_aux_Nil_iff: "split_aux cur s = [] \<longleftrightarrow> cur = [] \<and> list_all is_space s"
  by (induction s arbitrary: cur) auto

lemma list_all_dropWhile_space:
  "list_all is_space (dropWhile is_space xs) \<longleftrightarrow> list_all is_space xs"
  by (induction xs) auto

lemma list_all_strip: "list_all is_space (strip s) \<longleftrightarrow> list_all is_space s"
proof -
  have "list_all is_space (strip s)
          \<longleftrightarrow> list_all is_space (dropWhile is_space (rev (dropWhile is_space s)))"
    by (simp add: strip_def list_all_iff)
  also have "\<dots> \<longleftrightarrow> list_all is_space (rev (dropWhile is_space s))"
    by (rule list_all_dropWhile_space)
  also have "\<dots> \<longleftrightarrow> list_all is_space (dropWhile is_space s)"
    by (simp add: list_all_iff)
  also have "\<dots> \<longleftrightarrow> list_all is_space s"
    by (rule list_all_dropWhile_space)
  finally show ?thesis .
qed

lemma parse_query_Nil_iff: "parse_query query = [] \<longleftrightarrow> whitespace_only query"
proof -
  have "parse_query query = [] \<longleftrightarrow> list_all is_space (strip (lower query))"
    by (simp add: parse_query_def split_def split_aux_Nil_iff)
  also have "\<dots> \<longleftrightarrow> list_all is_space (lower query)" by (rule list_all_strip)
  also have "\<dots> \<longleftrightarrow> list_all is_space query"
    by (simp add: lower_def list_all_iff is_space_lower_char)
  finally show ?thesis by (simp add: whitespace_only_def)
qed

lemma filter_score_one:
  "filter (\<lambda>(score, doc). score = (1::int)) (map (\<lambda>doc. if P doc then (1, doc) else (0, doc)) xs)
     = map (\<lambda>doc. (1, doc)) (filter P xs)"
  by (induction xs) auto

text \<open>
  Claim C2. For a query with at least one term (a query that is not empty or
  whitespace-only), \<open>linear_boolean_search\<close> marks a document as a match iff every query
  term (whitespace-split, lowercased, and stemmed when \<open>stemmed\<close> is set) is in the
  document's selected term view. With \<open>stemmed=False\<close> the result has one pair for every
  document, in input order, with score 1 for a match and 0 otherwise; with \<open>stemmed=True\<close>
  it has only the matching documents, each with score 1.
\<close>

theorem linear_boolean_search_spec:
  assumes "\<not> whitespace_only query"
  shows "linear_boolean_search query coll sf False =
           map (\<lambda>doc. (if spec_matches query sf False doc then 1 else 0, doc)) coll
         \<and> linear_boolean_search query coll sf True =
           map (\<lambda>doc. (1, doc)) (filter (spec_matches query sf True) coll)"
proof -
  from assms have ne: "parse_query query \<noteq> []" by (simp add: parse_query_Nil_iff)
  have u: "linear_boolean_search query coll sf False =
           map (\<lambda>doc. (if spec_matches query sf False doc then 1 else 0, doc)) coll"
    using ne by (simp add: linear_boolean_search_def spec_matches_def spec_query_terms_def Let_def)
  have s: "linear_boolean_search query coll sf True =
           map (\<lambda>doc. (1, doc)) (filter (spec_matches query sf True) coll)"
    using ne
    by (simp add: linear_boolean_search_def spec_matches_def [abs_def] spec_query_terms_def
        Let_def filter_score_one)
  from u s show ?thesis by (rule conjI)
qed

theorem linear_boolean_search_spec_witness:
  "\<not> whitespace_only ''Cat dog''
   \<and> map fst (linear_boolean_search ''Cat dog'' example_collection False False) = [0, 0, 1]
   \<and> map (document_id \<circ> snd) (linear_boolean_search ''Cat dog'' example_collection False False)
       = [0, 1, 2]
   \<and> map fst (linear_boolean_search ''Cat dog'' example_collection False True) = [1]
   \<and> map (document_id \<circ> snd) (linear_boolean_search ''Cat dog'' example_collection False True)
       = [2]"
proof -
  have h: "\<not> whitespace_only ''Cat dog''" by code_simp
  have a: "map fst (map (\<lambda>doc. (if spec_matches ''Cat dog'' False False doc then 1 else 0 :: int, doc))
             example_collection) = [0, 0, 1]"
    by code_simp
  have b: "map (document_id \<circ> snd)
             (map (\<lambda>doc. (if spec_matches ''Cat dog'' False False doc then 1 else 0 :: int, doc))
             example_collection) = [0, 1, 2]"
    by code_simp
  have c: "map fst (map (\<lambda>doc. (1 :: int, doc))
             (filter (spec_matches ''Cat dog'' False True) example_collection)) = [1]"
    by code_simp
  have d: "map (document_id \<circ> snd) (map (\<lambda>doc. (1 :: int, doc))
             (filter (spec_matches ''Cat dog'' False True) example_collection)) = [2]"
    by code_simp
  note th = linear_boolean_search_spec [OF h, of example_collection False]
  from th have e1: "linear_boolean_search ''Cat dog'' example_collection False False =
           map (\<lambda>doc. (if spec_matches ''Cat dog'' False False doc then 1 else 0, doc))
             example_collection" by (elim conjE)
  from th have e2: "linear_boolean_search ''Cat dog'' example_collection False True =
           map (\<lambda>doc. (1, doc)) (filter (spec_matches ''Cat dog'' False True) example_collection)"
    by (elim conjE)
  show ?thesis unfolding e1 e2 by (intro conjI h a b c d)
qed

text \<open>
  Claim C6. Degenerate inputs give degenerate results: \<open>vector_space_search\<close> on an empty
  collection returns the empty list; on an empty or whitespace-only query it returns every
  document with score 0.0, and \<open>linear_boolean_search\<close> returns every document with score 0,
  whatever the flags; frequency-based filtering against an empty reference collection sets
  \<open>filtered_terms\<close> to the empty list (in both versions of the filter).
\<close>

theorem degenerate_inputs:
  "vector_space_search query [] sf st = []
   \<and> (whitespace_only query \<longrightarrow>
        vector_space_search query coll sf st = map (\<lambda>doc. (0, doc)) coll
        \<and> linear_boolean_search query coll sf st = map (\<lambda>doc. (0, doc)) coll)
   \<and> filtered_terms (remove_stopwords_by_frequency doc [] rare common) = []
   \<and> filtered_terms (remove_stopwords_by_frequency_old doc [] common rare) = []"
proof -
  have a: "vector_space_search query [] sf st = []" by (simp add: vector_space_search_def)
  have b: "vector_space_search query coll sf st = map (\<lambda>doc. (0, doc)) coll"
    if "whitespace_only query"
    using that by (cases "coll = []") (simp_all add: vector_space_search_def parse_query_Nil_iff)
  have c: "linear_boolean_search query coll sf st = map (\<lambda>doc. (0, doc)) coll"
    if "whitespace_only query"
    using that by (simp add: linear_boolean_search_def parse_query_Nil_iff)
  have d: "filtered_terms (remove_stopwords_by_frequency doc [] rare common) = []"
    by (simp add: remove_stopwords_by_frequency_def)
  have e: "filtered_terms (remove_stopwords_by_frequency_old doc [] common rare) = []"
    by (simp add: remove_stopwords_by_frequency_old_def term_frequencies_def)
  from a b c d e show ?thesis by blast
qed

theorem degenerate_inputs_witness:
  "whitespace_only '' ''
   \<and> vector_space_search '' '' example_collection False True =
       map (\<lambda>doc. (0, doc)) example_collection
   \<and> linear_boolean_search '' '' example_collection False True =
       map (\<lambda>doc. (0, doc)) example_collection
   \<and> linear_boolean_search '''' example_collection True False =
       map (\<lambda>doc. (0, doc)) example_collection"
proof -
  have h: "whitespace_only '' ''" by code_simp
  have h': "whitespace_only ''''" by code_simp
  note th = degenerate_inputs [of "'' ''" False True example_collection]
  note th' = degenerate_inputs [of "''''" True False example_collection]
  from th h have a: "vector_space_search '' '' example_collection False True =
       map (\<lambda>doc. (0, doc)) example_collection" by blast
  from th h have b: "linear_boolean_search '' '' example_collection False True =
       map (\<lambda>doc. (0, doc)) example_collection" by blast
  from th' h' have c: "linear_boolean_search '''' example_collection True False =
       map (\<lambda>doc. (0, doc)) example_collection" by blast
  show ?thesis by (intro conjI h a b c)
qed

section \<open>Dictionaries of counts and the frequency filter\<close>

lemma map_of_incr: "map_of (incr t d) = (map_of d)(t \<mapsto> get_count d t + 1)"
  by (induction d) (auto simp: get_count_def fun_eq_iff)

lemma get_count_incr: "get_count (incr t d) k = get_count d k + (if k = t then 1 else 0)"
  by (simp add: get_count_def [of "incr t d"] map_of_incr) (simp add: get_count_def)

lemma map_fst_incr:
  "map fst (incr t d) = (if t \<in> fst ` set d then map fst d else map fst d @ [t])"
proof (induction d)
  case Nil
  show ?case by simp
next
  case (Cons kv d)
  obtain k c where kv: "kv = (k, c)" by (cases kv)
  show ?case
  proof (cases "k = t")
    case True
    then show ?thesis by (simp add: kv)
  next
    case False
    then show ?thesis using Cons.IH by (cases "t \<in> fst ` set d") (auto simp: kv)
  qed
qed

lemma keys_incr: "fst ` set (incr t d) = insert t (fst ` set d)"
proof -
  have "set (map fst (incr t d)) = insert t (set (map fst d))"
    unfolding map_fst_incr by auto
  then show ?thesis by simp
qed

lemma distinct_incr: "distinct (map fst d) \<Longrightarrow> distinct (map fst (incr t d))"
  unfolding map_fst_incr by auto

lemma sum_incr: "sum_list (map snd (incr t d)) = sum_list (map snd d) + 1"
  by (induction d) auto

lemma get_count_fold:
  "get_count (foldl (\<lambda>cs t. incr t cs) d ts) k = get_count d k + count_list ts k"
  by (induction ts arbitrary: d) (auto simp: get_count_incr)

lemma keys_fold: "fst ` set (foldl (\<lambda>cs t. incr t cs) d ts) = fst ` set d \<union> set ts"
  by (induction ts arbitrary: d) (auto simp: keys_incr)

lemma distinct_fold:
  "distinct (map fst d) \<Longrightarrow> distinct (map fst (foldl (\<lambda>cs t. incr t cs) d ts))"
  by (induction ts arbitrary: d) (auto simp: distinct_incr)

lemma sum_fold:
  "sum_list (map snd (foldl (\<lambda>cs t. incr t cs) d ts)) = sum_list (map snd d) + length ts"
  by (induction ts arbitrary: d) (auto simp: sum_incr)

lemma count_list_remdups: "count_list (remdups ts) k = (if k \<in> set ts then 1 else 0)"
  by (induction ts) auto

lemma get_count_Nil: "get_count [] k = 0"
  by (simp add: get_count_def)

lemma doc_counts_get:
  "get_count (foldl (\<lambda>counts d. foldl (\<lambda>cs t. incr t cs) counts (remdups (terms d))) d0 coll) k
     = get_count d0 k + length (filter (\<lambda>d. k \<in> set (terms d)) coll)"
  by (induction coll arbitrary: d0) (auto simp: get_count_fold count_list_remdups)

lemma doc_counts_keys:
  "fst ` set (foldl (\<lambda>counts d. foldl (\<lambda>cs t. incr t cs) counts (remdups (terms d))) d0 coll)
     = fst ` set d0 \<union> (\<Union>d \<in> set coll. set (terms d))"
  by (induction coll arbitrary: d0) (auto simp: keys_fold)

lemma doc_counts_distinct:
  "distinct (map fst d0) \<Longrightarrow>
   distinct (map fst (foldl (\<lambda>counts d. foldl (\<lambda>cs t. incr t cs) counts (remdups (terms d))) d0 coll))"
  by (induction coll arbitrary: d0) (auto simp: distinct_fold)

lemma occ_counts_get:
  "get_count (foldl (\<lambda>counts d. foldl (\<lambda>cs t. incr t cs) counts (terms d)) d0 coll) k
     = get_count d0 k + sum_list (map (\<lambda>d. count_list (terms d) k) coll)"
  by (induction coll arbitrary: d0) (auto simp: get_count_fold)

lemma occ_counts_keys:
  "fst ` set (foldl (\<lambda>counts d. foldl (\<lambda>cs t. incr t cs) counts (terms d)) d0 coll)
     = fst ` set d0 \<union> (\<Union>d \<in> set coll. set (terms d))"
  by (induction coll arbitrary: d0) (auto simp: keys_fold)

lemma occ_counts_distinct:
  "distinct (map fst d0) \<Longrightarrow>
   distinct (map fst (foldl (\<lambda>counts d. foldl (\<lambda>cs t. incr t cs) counts (terms d)) d0 coll))"
  by (induction coll arbitrary: d0) (auto simp: distinct_fold)

lemma occ_counts_sum:
  "sum_list (map snd (foldl (\<lambda>counts d. foldl (\<lambda>cs t. incr t cs) counts (terms d)) d0 coll))
     = sum_list (map snd d0) + sum_list (map (\<lambda>d. length (terms d)) coll)"
  by (induction coll arbitrary: d0) (auto simp: sum_fold)

lemma freq_stopwords_iff:
  assumes "distinct (map fst counts)"
  shows "t \<in> freq_stopwords counts n rare common \<longleftrightarrow>
           t \<in> fst ` set counts \<and> spec_is_stopword rare common (real (get_count counts t) / real n)"
proof -
  have m: "(t, c) \<in> set counts \<longleftrightarrow> map_of counts t = Some c" for c
    using assms by simp
  have "t \<in> freq_stopwords counts n rare common \<longleftrightarrow>
          (\<exists>c. (t, c) \<in> set counts \<and> spec_is_stopword rare common (real c / real n))"
    by (force simp: freq_stopwords_def spec_is_stopword_def)
  also have "\<dots> \<longleftrightarrow> (\<exists>c. map_of counts t = Some c
                \<and> spec_is_stopword rare common (real (get_count counts t) / real n))"
    unfolding m by (auto simp: get_count_def)
  also have "\<dots> \<longleftrightarrow> t \<in> fst ` set counts
                \<and> spec_is_stopword rare common (real (get_count counts t) / real n)"
    using map_of_eq_None_iff [of counts t] by auto
  finally show ?thesis .
qed

lemma occurs_in_iff: "occurs_in coll t \<longleftrightarrow> t \<in> (\<Union>d \<in> set coll. set (terms d))"
  by (auto simp: occurs_in_def list_ex_iff)

lemma doc_stopwords_iff:
  "t \<in> freq_stopwords (term_doc_counts coll) (length coll) rare common \<longleftrightarrow>
     occurs_in coll t \<and> spec_is_stopword rare common (spec_document_frequency coll t)"
proof -
  have d: "distinct (map fst (term_doc_counts coll))"
    unfolding term_doc_counts_def by (rule doc_counts_distinct) simp
  show ?thesis
    unfolding freq_stopwords_iff [OF d] occurs_in_iff spec_document_frequency_def
    unfolding term_doc_counts_def doc_counts_keys doc_counts_get
    by (simp add: get_count_Nil)
qed

lemma occ_stopwords_iff:
  "t \<in> freq_stopwords (term_frequencies coll) (total_occurrences coll) rare common \<longleftrightarrow>
     occurs_in coll t \<and> spec_is_stopword rare common (spec_term_frequency coll t)"
proof -
  have d: "distinct (map fst (term_frequencies coll))"
    unfolding term_frequencies_def by (rule occ_counts_distinct) simp
  show ?thesis
    unfolding freq_stopwords_iff [OF d] occurs_in_iff spec_term_frequency_def
    unfolding term_frequencies_def occ_counts_keys occ_counts_get
    by (simp add: get_count_Nil)
qed

lemma total_terms_eq: "sum_list (map snd (term_frequencies coll)) = total_occurrences coll"
  unfolding term_frequencies_def total_occurrences_def occ_counts_sum by simp

text \<open>
  Claim C4. In the frequency-based filter a term is classified as a stopword iff its
  computed relative frequency is at least \<open>common\<close> or at most \<open>rare\<close>, where the frequency
  is the fraction of the reference documents that contain the term (\<open>Ass2/group_008_p2\<close>)
  or the term's share of all term occurrences (the older version); a frequency is computed
  for the terms that occur in the reference collection, and the kept terms are stored
  lowercased in \<open>filtered_terms\<close>.
\<close>

theorem remove_stopwords_by_frequency_spec:
  "(coll \<noteq> [] \<longrightarrow>
      (t \<in> freq_stopwords (term_doc_counts coll) (length coll) rare common \<longleftrightarrow>
         occurs_in coll t \<and> spec_is_stopword rare common (spec_document_frequency coll t))
      \<and> filtered_terms (remove_stopwords_by_frequency doc coll rare common) =
          map lower (filter (\<lambda>t. \<not> (occurs_in coll t
            \<and> spec_is_stopword rare common (spec_document_frequency coll t))) (terms doc)))
   \<and> (total_occurrences coll \<noteq> 0 \<longrightarrow>
      (t \<in> freq_stopwords (term_frequencies coll) (total_occurrences coll) rare common \<longleftrightarrow>
         occurs_in coll t \<and> spec_is_stopword rare common (spec_term_frequency coll t))
      \<and> filtered_terms (remove_stopwords_by_frequency_old doc coll common rare) =
          map lower (filter (\<lambda>t. \<not> (occurs_in coll t
            \<and> spec_is_stopword rare common (spec_term_frequency coll t))) (terms doc)))
   \<and> list_all is_lowercase (filtered_terms (remove_stopwords_by_frequency doc coll rare common))
   \<and> list_all is_lowercase
        (filtered_terms (remove_stopwords_by_frequency_old doc coll common rare))"
proof -
  have a: "filtered_terms (remove_stopwords_by_frequency doc coll rare common) =
          map lower (filter (\<lambda>t. \<not> (occurs_in coll t
            \<and> spec_is_stopword rare common (spec_document_frequency coll t))) (terms doc))"
    if "coll \<noteq> []"
    using that by (simp add: remove_stopwords_by_frequency_def Let_def doc_stopwords_iff)
  have b: "filtered_terms (remove_stopwords_by_frequency_old doc coll common rare) =
          map lower (filter (\<lambda>t. \<not> (occurs_in coll t
            \<and> spec_is_stopword rare common (spec_term_frequency coll t))) (terms doc))"
    if "total_occurrences coll \<noteq> 0"
    unfolding remove_stopwords_by_frequency_old_def Let_def total_terms_eq
    using that by (simp add: occ_stopwords_iff)
  have c: "list_all is_lowercase (filtered_terms (remove_stopwords_by_frequency doc coll rare common))"
    by (simp add: remove_stopwords_by_frequency_def Let_def list_all_iff is_lowercase_lower)
  have d: "list_all is_lowercase
        (filtered_terms (remove_stopwords_by_frequency_old doc coll common rare))"
    by (simp add: remove_stopwords_by_frequency_old_def Let_def list_all_iff is_lowercase_lower)
  show ?thesis
    using a b c d doc_stopwords_iff [of t coll rare common] occ_stopwords_iff [of t coll rare common]
    by blast
qed

lemma ex_terms: "map terms example_collection =
   [[''the'', ''cat'', ''sat''], [''the'', ''dog'', ''ran''], [''cat'', ''dog'', ''played'']]"
  by (simp add: example_collection_def mk_doc_def)

theorem remove_stopwords_by_frequency_spec_witness:
  "example_collection \<noteq> [] \<and> total_occurrences example_collection \<noteq> 0
   \<and> filtered_terms (remove_stopwords_by_frequency
        (mk_doc 0 [''the'', ''cat'', ''sat'', ''Zebra'']) example_collection (1 / 10) (6 / 10))
       = [''sat'', ''zebra'']
   \<and> filtered_terms (remove_stopwords_by_frequency_old
        (mk_doc 0 [''the'', ''cat'', ''sat'', ''Zebra'']) example_collection (2 / 10) (1 / 20))
       = [''sat'', ''zebra'']"
proof -
  have h1: "example_collection \<noteq> []" by (simp add: example_collection_def)
  have h2: "total_occurrences example_collection \<noteq> 0"
    by (simp add: total_occurrences_def example_collection_def mk_doc_def)
  have t: "terms (mk_doc 0 [''the'', ''cat'', ''sat'', ''Zebra'']) = [''the'', ''cat'', ''sat'', ''Zebra'']"
    by (simp add: mk_doc_def)
  have l: "map lower [''sat'', ''Zebra''] = [''sat'', ''zebra'']" by code_simp
  have r1: "filter (\<lambda>t. \<not> (occurs_in example_collection t
            \<and> spec_is_stopword (1 / 10) (6 / 10) (spec_document_frequency example_collection t)))
            [''the'', ''cat'', ''sat'', ''Zebra''] = [''sat'', ''Zebra'']"
    by (simp add: occurs_in_def spec_is_stopword_def spec_document_frequency_def
        example_collection_def mk_doc_def)
  have r2: "filter (\<lambda>t. \<not> (occurs_in example_collection t
            \<and> spec_is_stopword (1 / 20) (2 / 10) (spec_term_frequency example_collection t)))
            [''the'', ''cat'', ''sat'', ''Zebra''] = [''sat'', ''Zebra'']"
    by (simp add: occurs_in_def spec_is_stopword_def spec_term_frequency_def total_occurrences_def
        example_collection_def mk_doc_def)
  note th = remove_stopwords_by_frequency_spec
    [of example_collection "''the''" "1 / 10" "6 / 10" "mk_doc 0 [''the'', ''cat'', ''sat'', ''Zebra'']"]
  note th' = remove_stopwords_by_frequency_spec
    [of example_collection "''the''" "1 / 20" "2 / 10" "mk_doc 0 [''the'', ''cat'', ''sat'', ''Zebra'']"]
  from th h1 have a: "filtered_terms (remove_stopwords_by_frequency
        (mk_doc 0 [''the'', ''cat'', ''sat'', ''Zebra'']) example_collection (1 / 10) (6 / 10))
       = map lower (filter (\<lambda>t. \<not> (occurs_in example_collection t
            \<and> spec_is_stopword (1 / 10) (6 / 10) (spec_document_frequency example_collection t)))
            (terms (mk_doc 0 [''the'', ''cat'', ''sat'', ''Zebra''])))" by blast
  from th' h2 have b: "filtered_terms (remove_stopwords_by_frequency_old
        (mk_doc 0 [''the'', ''cat'', ''sat'', ''Zebra'']) example_collection (2 / 10) (1 / 20))
       = map lower (filter (\<lambda>t. \<not> (occurs_in example_collection t
            \<and> spec_is_stopword (1 / 20) (2 / 10) (spec_term_frequency example_collection t)))
            (terms (mk_doc 0 [''the'', ''cat'', ''sat'', ''Zebra''])))" by blast
  show ?thesis
    by (intro conjI h1 h2) (simp only: a t r1 l, simp only: b t r2 l)
qed

end
